theory Spec2Isabelle
  imports Main
begin

section \<open>Data of the anonymous chat matcher\<close>

text \<open>
  The matcher keeps three module-level containers: \<open>chat_partners\<close> (a dict from a user
  id to the id of the partner), \<open>waiting_users\<close> (a set of user ids) and \<open>user_data\<close>
  (a dict caching, per user id, the columns gender, premium and search\_gender of the
  table \<open>users\<close>). User ids are Python integers (\<open>message.chat.id\<close>).

  The three string literals of the source are Russian words; only their equality is ever
  tested, so they are written here in Latin transliteration: \<open>DEFAULT_SEARCH_GENDER\<close> is the
  word for "any", the two genders are the words for "boy" and "girl".
\<close>

type_synonym user_id = int

definition DEFAULT_SEARCH_GENDER :: string where
  "DEFAULT_SEARCH_GENDER = ''Lyuboy''"

definition GENDER_BOY :: string where
  "GENDER_BOY = ''Malchik''"

definition GENDER_GIRL :: string where
  "GENDER_GIRL = ''Devochka''"

text \<open>An entry of \<open>user_data\<close>; \<open>gender\<close> is \<open>None\<close> until the user has chosen one.\<close>

record profile =
  gender :: "string option"
  premium :: bool
  search_gender :: string

text \<open>A row of the SQLite table \<open>users\<close>; every column but the key may be NULL.\<close>

record users_row =
  row_gender :: "string option"
  row_premium :: "int option"
  row_search_gender :: "string option"

text \<open>
  The texts the bot sends, one constructor per \<open>bot.send_message\<close> of the functions
  modelled below. A message is the recipient with the text. Sending is assumed to
  succeed: it appends to the list of messages returned by each operation.
\<close>

datatype notice =
    SubscriptionPrompt
  | AskGender
  | MainMenu
  | SearchStarted
  | StopSearchButton
  | AlreadyQueued
  | AddedToQueue
  | PartnerFound
  | SearchStopped
  | NotSearching
  | YouDisconnected
  | PartnerDisconnected
  | NoActiveChat
  | SearchingNew
  | PartnerStartedNewSearch

type_synonym message = "user_id \<times> notice"

record bot_state =
  chat_partners :: "user_id \<rightharpoonup> user_id"
  waiting_users :: "user_id set"
  user_data :: "user_id \<rightharpoonup> profile"
  users_table :: "user_id \<rightharpoonup> users_row"

text \<open>
  \<open>list(waiting_users)\<close> enumerates a Python set, whose order is that of its hash table,
  not the order of insertion. The enumeration is a parameter of the model.
\<close>

type_synonym set_order = "user_id set \<Rightarrow> user_id list"

datatype error = KeyError user_id

section \<open>The profile store\<close>

text \<open>Python's \<open>x or d\<close> on a string column and \<open>bool(x)\<close> on an integer column.\<close>

definition str_or :: "string option \<Rightarrow> string \<Rightarrow> string" where
  "str_or x d = (case x of None \<Rightarrow> d | Some v \<Rightarrow> (if v = [] then d else v))"

definition int_bool :: "int option \<Rightarrow> bool" where
  "int_bool x = (case x of None \<Rightarrow> False | Some n \<Rightarrow> n \<noteq> 0)"

definition truthy_str :: "string option \<Rightarrow> bool" where
  "truthy_str x = (case x of None \<Rightarrow> False | Some v \<Rightarrow> v \<noteq> [])"

text \<open>\<open>INSERT OR IGNORE INTO users (user_id, search_gender)\<close>: the other columns take
  their defaults (gender NULL, premium 0).\<close>

definition ensure_user_record :: "bot_state \<Rightarrow> user_id \<Rightarrow> bot_state" where
  "ensure_user_record s u =
     (case users_table s u of
        Some r \<Rightarrow> s
      | None \<Rightarrow> s\<lparr>users_table := (users_table s)(u \<mapsto>
          \<lparr>row_gender = None, row_premium = Some 0,
           row_search_gender = Some DEFAULT_SEARCH_GENDER\<rparr>)\<rparr>)"

definition refresh_user_cache :: "bot_state \<Rightarrow> user_id \<Rightarrow> bot_state" where
  "refresh_user_cache s u =
     (case users_table s u of
        Some r \<Rightarrow> s\<lparr>user_data := (user_data s)(u \<mapsto>
          \<lparr>gender = row_gender r, premium = int_bool (row_premium r),
           search_gender = str_or (row_search_gender r) DEFAULT_SEARCH_GENDER\<rparr>)\<rparr>
      | None \<Rightarrow> s\<lparr>user_data := (user_data s)(u \<mapsto>
          \<lparr>gender = None, premium = False,
           search_gender = DEFAULT_SEARCH_GENDER\<rparr>)\<rparr>)"

definition ensure_user_loaded :: "bot_state \<Rightarrow> user_id \<Rightarrow> bot_state" where
  "ensure_user_loaded s u =
     (let s1 = ensure_user_record s u
      in (case user_data s1 u of None \<Rightarrow> refresh_user_cache s1 u | Some d \<Rightarrow> s1))"

section \<open>The compatibility test\<close>

text \<open>\<open>_user_preference\<close> and \<open>_user_gender\<close> read \<open>user_data.get(user_id, {})\<close>: a user
  that is not cached has no gender and no premium flag.\<close>

definition user_preference :: "(user_id \<rightharpoonup> profile) \<Rightarrow> user_id \<Rightarrow> string" where
  "user_preference ud u =
     (case ud u of
        None \<Rightarrow> DEFAULT_SEARCH_GENDER
      | Some d \<Rightarrow>
          (if premium d then str_or (Some (search_gender d)) DEFAULT_SEARCH_GENDER
           else DEFAULT_SEARCH_GENDER))"

definition user_gender :: "(user_id \<rightharpoonup> profile) \<Rightarrow> user_id \<Rightarrow> string option" where
  "user_gender ud u = (case ud u of None \<Rightarrow> None | Some d \<Rightarrow> gender d)"

definition can_users_chat :: "(user_id \<rightharpoonup> profile) \<Rightarrow> user_id \<Rightarrow> user_id \<Rightarrow> bool" where
  "can_users_chat ud user_a user_b =
     (case user_gender ud user_a of
        None \<Rightarrow> False
      | Some gender_a \<Rightarrow>
         (case user_gender ud user_b of
            None \<Rightarrow> False
          | Some gender_b \<Rightarrow>
             (let pref_a = user_preference ud user_a;
                  pref_b = user_preference ud user_b
              in if pref_a \<noteq> DEFAULT_SEARCH_GENDER \<and> gender_b \<noteq> pref_a then False
                 else if pref_b \<noteq> DEFAULT_SEARCH_GENDER \<and> gender_a \<noteq> pref_b then False
                 else True)))"

text \<open>
  The policy in the words of the specification, on two profiles: the effective
  preference of a profile is its search preference if it is premium and "any" otherwise;
  two profiles cannot match when a gender is unset, or when one side's effective
  preference is not "any" and differs from the other side's gender.
\<close>

definition effective_preference :: "profile \<Rightarrow> string" where
  "effective_preference p = (if premium p then search_gender p else DEFAULT_SEARCH_GENDER)"

definition blocks :: "profile \<Rightarrow> profile \<Rightarrow> bool" where
  "blocks a b =
     (effective_preference a \<noteq> DEFAULT_SEARCH_GENDER \<and>
      gender b \<noteq> Some (effective_preference a))"

definition can_match :: "profile \<Rightarrow> profile \<Rightarrow> bool" where
  "can_match a b =
     (if gender a = None then False
      else if gender b = None then False
      else if blocks a b then False
      else if blocks b a then False
      else True)"

section \<open>The matchmaking engine\<close>

text \<open>
  The loop of \<open>find_partner_for_user\<close> over \<open>list(waiting_users)\<close>: the requester is
  skipped, the first compatible member is taken.
\<close>

fun scan_waiting :: "(user_id \<rightharpoonup> profile) \<Rightarrow> user_id \<Rightarrow> user_id list \<Rightarrow> user_id option" where
  "scan_waiting ud user_id [] = None"
| "scan_waiting ud user_id (partner_id # rest) =
     (if partner_id = user_id then scan_waiting ud user_id rest
      else if can_users_chat ud user_id partner_id then Some partner_id
      else scan_waiting ud user_id rest)"

text \<open>
  \<open>find_partner_for_user\<close> removes the member it returns from the set. The listing
  enumerates members of the set, so that \<open>waiting_users.remove\<close> finds its argument.
\<close>

definition find_partner_for_user ::
    "set_order \<Rightarrow> bot_state \<Rightarrow> user_id \<Rightarrow> user_id option \<times> bot_state" where
  "find_partner_for_user listing s user_id =
     (if waiting_users s = {} then (None, s)
      else
        (case scan_waiting (user_data s) user_id (listing (waiting_users s)) of
           None \<Rightarrow> (None, s)
         | Some partner_id \<Rightarrow>
             (Some partner_id, s\<lparr>waiting_users := waiting_users s - {partner_id}\<rparr>)))"

definition connect_users :: "bot_state \<Rightarrow> user_id \<Rightarrow> user_id \<Rightarrow> bot_state \<times> message list" where
  "connect_users s user_id partner_id =
     (s\<lparr>chat_partners := (chat_partners s)(user_id \<mapsto> partner_id, partner_id \<mapsto> user_id)\<rparr>,
      [(user_id, PartnerFound), (partner_id, PartnerFound)])"

text \<open>
  \<open>begin_search_for_user\<close>. The test \<open>if partner_id:\<close> is Python truthiness: it fails
  for \<open>None\<close> and for the integer 0.
\<close>

definition begin_search_for_user ::
    "set_order \<Rightarrow> bot_state \<Rightarrow> user_id \<Rightarrow> bot_state \<times> message list" where
  "begin_search_for_user listing s user_id =
     (let s0 = ensure_user_loaded s user_id
      in if user_id \<in> waiting_users s0 then (s0, [(user_id, AlreadyQueued)])
         else
           (let started = [(user_id, SearchStarted), (user_id, StopSearchButton)];
                (found, s1) = find_partner_for_user listing s0 user_id;
                queued = (s1\<lparr>waiting_users := insert user_id (waiting_users s1)\<rparr>,
                          started @ [(user_id, AddedToQueue)])
            in (case found of
                  None \<Rightarrow> queued
                | Some partner_id \<Rightarrow>
                    (if partner_id = 0 then queued
                     else (let (s2, sent) = connect_users s1 user_id partner_id
                           in (s2, started @ sent))))))"

type_synonym outcome = "(error \<times> bot_state \<times> message list) + (bot_state \<times> message list)"

text \<open>
  The handler of the search button. \<open>subscribed\<close> is the answer of
  \<open>is_user_subscribed\<close>, which sends the subscription prompt itself when it answers no.
  \<open>user_data[user_id]\<close> raises on a missing key.
\<close>

definition start_search :: "set_order \<Rightarrow> bot_state \<Rightarrow> user_id \<Rightarrow> bool \<Rightarrow> outcome" where
  "start_search listing s user_id subscribed =
     (let s0 = ensure_user_loaded s user_id
      in if subscribed then
           (case user_data s0 user_id of
              None \<Rightarrow> Inl (KeyError user_id, s0, [])
            | Some d \<Rightarrow>
                (if truthy_str (gender d)
                 then Inr (begin_search_for_user listing s0 user_id)
                 else Inr (s0, [(user_id, AskGender)])))
         else Inr (s0, [(user_id, SubscriptionPrompt)]))"

definition stop_search :: "bot_state \<Rightarrow> user_id \<Rightarrow> bot_state \<times> message list" where
  "stop_search s user_id =
     (if user_id \<in> waiting_users s
      then (s\<lparr>waiting_users := waiting_users s - {user_id}\<rparr>,
            [(user_id, SearchStopped), (user_id, MainMenu)])
      else (s, [(user_id, NotSearching), (user_id, MainMenu)]))"

text \<open>
  \<open>stop_chat\<close> and \<open>next_chat\<close> delete both entries with \<open>del\<close>; the second \<open>del\<close>
  raises when the partner has no entry left, after the first entry is gone and the two
  texts are sent.
\<close>

definition stop_chat :: "bot_state \<Rightarrow> user_id \<Rightarrow> outcome" where
  "stop_chat s user_id =
     (case chat_partners s user_id of
        Some partner_id \<Rightarrow>
          (let sent = [(user_id, YouDisconnected), (partner_id, PartnerDisconnected)];
               s1 = s\<lparr>chat_partners := (chat_partners s)(user_id := None)\<rparr>
           in (case chat_partners s1 partner_id of
                 None \<Rightarrow> Inl (KeyError partner_id, s1, sent)
               | Some q \<Rightarrow>
                   Inr (s1\<lparr>chat_partners := (chat_partners s1)(partner_id := None)\<rparr>,
                        sent @ [(user_id, MainMenu), (partner_id, MainMenu)])))
      | None \<Rightarrow> Inr (s, [(user_id, NoActiveChat), (user_id, MainMenu)]))"

definition next_chat :: "set_order \<Rightarrow> bot_state \<Rightarrow> user_id \<Rightarrow> outcome" where
  "next_chat listing s user_id =
     (let s0 = ensure_user_loaded s user_id
      in (case chat_partners s0 user_id of
            None \<Rightarrow> Inr (s0, [(user_id, NoActiveChat)])
          | Some partner_id \<Rightarrow>
              (let sent = [(user_id, SearchingNew), (partner_id, PartnerStartedNewSearch)];
                   s1 = s0\<lparr>chat_partners := (chat_partners s0)(user_id := None)\<rparr>
               in (case chat_partners s1 partner_id of
                     None \<Rightarrow> Inl (KeyError partner_id, s1, sent)
                   | Some q \<Rightarrow>
                       (let s2 = s1\<lparr>chat_partners := (chat_partners s1)(partner_id := None)\<rparr>;
                            sent2 = sent @ [(partner_id, MainMenu)]
                        in if truthy_str (user_gender (user_data s2) user_id)
                           then (let (s3, more) = begin_search_for_user listing s2 user_id
                                 in Inr (s3, sent2 @ more))
                           else Inr (s2, sent2 @ [(user_id, AskGender)]))))))"

section \<open>Sequences of user actions\<close>

text \<open>
  The four actions a user can take, and the containers after a handler has run. An
  exception leaves the handler; the polling loop goes on with the containers as they are.
  At start-up the containers are empty and \<open>load_user_data\<close> caches every row of the
  table.
\<close>

datatype event =
    BeginSearch user_id bool
  | CancelSearch user_id
  | StopSession user_id
  | NextSession user_id

definition state_of :: "outcome \<Rightarrow> bot_state" where
  "state_of r = (case r of Inl (e, s, sent) \<Rightarrow> s | Inr (s, sent) \<Rightarrow> s)"

fun step :: "set_order \<Rightarrow> bot_state \<Rightarrow> event \<Rightarrow> bot_state" where
  "step listing s (BeginSearch u subscribed) = state_of (start_search listing s u subscribed)"
| "step listing s (CancelSearch u) = fst (stop_search s u)"
| "step listing s (StopSession u) = state_of (stop_chat s u)"
| "step listing s (NextSession u) = state_of (next_chat listing s u)"

definition run :: "set_order \<Rightarrow> bot_state \<Rightarrow> event list \<Rightarrow> bot_state" where
  "run listing s es = foldl (step listing) s es"

definition load_row :: "users_row \<Rightarrow> profile" where
  "load_row r =
     \<lparr>gender = row_gender r, premium = int_bool (row_premium r),
      search_gender = str_or (row_search_gender r) DEFAULT_SEARCH_GENDER\<rparr>"

definition initial_state :: "(user_id \<rightharpoonup> users_row) \<Rightarrow> bot_state" where
  "initial_state tbl =
     \<lparr>chat_partners = Map.empty, waiting_users = {},
      user_data = (\<lambda>u. map_option load_row (tbl u)), users_table = tbl\<rparr>"

text \<open>
  The scan in the words of the specification: the members in insertion order, the
  requester excluded, the first one that the policy accepts.
\<close>

definition find_compatible :: "(user_id \<rightharpoonup> profile) \<Rightarrow> user_id list \<Rightarrow> user_id \<Rightarrow> user_id option" where
  "find_compatible ud inserted user_id =
     List.find (\<lambda>p. can_users_chat ud user_id p) (filter (\<lambda>p. p \<noteq> user_id) inserted)"

definition messages_of :: "outcome \<Rightarrow> message list" where
  "messages_of r = (case r of Inl (e, s, sent) \<Rightarrow> sent | Inr (s, sent) \<Rightarrow> sent)"

section \<open>Example users\<close>

text \<open>
  Rows and profiles for the concrete runs below: users 1 and 3 are boys and user 2 is a
  girl, none premium; user 4 has not chosen a gender. In the second table user 2 is a
  premium boy who searches for girls only. In the third table the girl has the user
  id 0.
\<close>

definition plain_boy :: users_row where
  "plain_boy = \<lparr>row_gender = Some GENDER_BOY, row_premium = Some 0,
     row_search_gender = Some DEFAULT_SEARCH_GENDER\<rparr>"

definition plain_girl :: users_row where
  "plain_girl = \<lparr>row_gender = Some GENDER_GIRL, row_premium = Some 0,
     row_search_gender = Some DEFAULT_SEARCH_GENDER\<rparr>"

definition picky_boy :: users_row where
  "picky_boy = \<lparr>row_gender = Some GENDER_BOY, row_premium = Some 1,
     row_search_gender = Some GENDER_GIRL\<rparr>"

definition no_gender :: users_row where
  "no_gender = \<lparr>row_gender = None, row_premium = Some 0,
     row_search_gender = Some DEFAULT_SEARCH_GENDER\<rparr>"

definition sample_users :: "user_id \<rightharpoonup> users_row" where
  "sample_users = [1 \<mapsto> plain_boy, 2 \<mapsto> plain_girl, 3 \<mapsto> plain_boy, 4 \<mapsto> no_gender]"

definition picky_users :: "user_id \<rightharpoonup> users_row" where
  "picky_users = [1 \<mapsto> plain_boy, 2 \<mapsto> picky_boy, 3 \<mapsto> plain_girl]"

definition one_waiting :: bot_state where
  "one_waiting = (initial_state sample_users)\<lparr>waiting_users := {1}\<rparr>"

definition zero_users :: "user_id \<rightharpoonup> users_row" where
  "zero_users = [0 \<mapsto> plain_girl, 1 \<mapsto> plain_boy]"

definition paired_with_waiting :: bot_state where
  "paired_with_waiting =
     (initial_state sample_users)\<lparr>chat_partners := [1 \<mapsto> 2, 2 \<mapsto> 1], waiting_users := {3}\<rparr>"

definition premium_boy_seeking_girl :: profile where
  "premium_boy_seeking_girl =
     \<lparr>gender = Some GENDER_BOY, premium = True, search_gender = GENDER_GIRL\<rparr>"

definition girl_with_stale_preference :: profile where
  "girl_with_stale_preference =
     \<lparr>gender = Some GENDER_GIRL, premium = False, search_gender = GENDER_GIRL\<rparr>"

lemmas store_defs =
  ensure_user_loaded_def ensure_user_record_def refresh_user_cache_def load_row_def
  initial_state_def str_or_def int_bool_def truthy_str_def

lemmas policy_defs =
  can_users_chat_def user_gender_def user_preference_def
  DEFAULT_SEARCH_GENDER_def GENDER_BOY_def GENDER_GIRL_def

lemmas engine_defs =
  find_partner_for_user_def connect_users_def begin_search_for_user_def start_search_def
  stop_search_def stop_chat_def next_chat_def state_of_def messages_of_def run_def

lemmas sample_defs =
  plain_boy_def plain_girl_def picky_boy_def no_gender_def sample_users_def
  picky_users_def one_waiting_def zero_users_def paired_with_waiting_def

section \<open>The profile store: facts\<close>

lemma ensure_user_loaded_waiting [simp]:
  "waiting_users (ensure_user_loaded s u) = waiting_users s"
  by (simp add: ensure_user_loaded_def ensure_user_record_def refresh_user_cache_def
      Let_def split: option.splits)

lemma ensure_user_loaded_partners [simp]:
  "chat_partners (ensure_user_loaded s u) = chat_partners s"
  by (simp add: ensure_user_loaded_def ensure_user_record_def refresh_user_cache_def
      Let_def split: option.splits)

lemma ensure_user_loaded_cached: "user_data (ensure_user_loaded s u) u \<noteq> None"
  by (simp add: ensure_user_loaded_def ensure_user_record_def refresh_user_cache_def
      Let_def split: option.splits)

lemma ensure_user_loaded_again [simp]:
  "ensure_user_loaded (ensure_user_loaded s u) u = ensure_user_loaded s u"
  by (simp add: ensure_user_loaded_def ensure_user_record_def refresh_user_cache_def
      Let_def split: option.splits)

lemma str_or_default_nonempty: "str_or x DEFAULT_SEARCH_GENDER \<noteq> []"
  by (simp add: str_or_def DEFAULT_SEARCH_GENDER_def split: option.splits)

section \<open>The compatibility test: facts\<close>

lemma user_preference_cached:
  "ud u = Some p \<Longrightarrow> search_gender p \<noteq> [] \<Longrightarrow> user_preference ud u = effective_preference p"
  by (simp add: user_preference_def effective_preference_def str_or_def)

lemma can_users_chat_sym: "can_users_chat ud a b = can_users_chat ud b a"
  by (auto simp: can_users_chat_def Let_def split: option.splits)

lemma user_preference_not_premium:
  "ud u = Some p \<Longrightarrow> \<not> premium p \<Longrightarrow>
   user_preference (ud(u \<mapsto> p\<lparr>search_gender := x\<rparr>)) v = user_preference ud v"
  by (simp add: user_preference_def)

lemma user_gender_search_gender:
  "ud u = Some p \<Longrightarrow> user_gender (ud(u \<mapsto> p\<lparr>search_gender := x\<rparr>)) v = user_gender ud v"
  by (simp add: user_gender_def)

text \<open>
  C6. For two cached profiles, \<open>can_users_chat\<close> is the policy of the specification: it
  is false exactly when a gender is unset or one side's effective preference (the stored
  preference if premium, "any" otherwise) is not "any" and differs from the other
  side's gender; it is symmetric; and the stored preference of a user who is not
  premium has no influence. The cache never holds an empty preference (it stores
  \<open>row[2] or DEFAULT_SEARCH_GENDER\<close>), which is the hypothesis on \<open>search_gender\<close>.
\<close>

theorem can_users_chat_policy:
  assumes "ud a = Some pa" and "ud b = Some pb"
    and "search_gender pa \<noteq> []" and "search_gender pb \<noteq> []"
  shows "(can_users_chat ud a b = can_match pa pb) \<and>
         ((\<not> can_users_chat ud a b) =
            (gender pa = None \<or> gender pb = None \<or> blocks pa pb \<or> blocks pb pa)) \<and>
         (can_users_chat ud a b = can_users_chat ud b a) \<and>
         (\<not> premium pa \<longrightarrow> \<not> blocks pa pb \<and>
            (\<forall>x. can_users_chat (ud(a \<mapsto> pa\<lparr>search_gender := x\<rparr>)) a b = can_users_chat ud a b))"
proof -
  have pref: "user_preference ud a = effective_preference pa"
    "user_preference ud b = effective_preference pb"
    using assms by (simp_all add: user_preference_cached)
  have gen: "user_gender ud a = gender pa" "user_gender ud b = gender pb"
    using assms by (simp_all add: user_gender_def)
  have eq: "can_users_chat ud a b = can_match pa pb"
    unfolding can_users_chat_def can_match_def blocks_def pref gen
    by (auto simp: Let_def split: option.splits)
  have char: "(\<not> can_match pa pb) =
      (gender pa = None \<or> gender pb = None \<or> blocks pa pb \<or> blocks pb pa)"
    by (simp add: can_match_def)
  have free: "\<not> premium pa \<Longrightarrow> \<not> blocks pa pb"
    by (simp add: blocks_def effective_preference_def)
  have indep: "can_users_chat (ud(a \<mapsto> pa\<lparr>search_gender := x\<rparr>)) a b = can_users_chat ud a b"
    if "\<not> premium pa" for x
  proof -
    have p: "user_preference (ud(a \<mapsto> pa\<lparr>search_gender := x\<rparr>)) v = user_preference ud v" for v
      using assms(1) that by (rule user_preference_not_premium)
    have g: "user_gender (ud(a \<mapsto> pa\<lparr>search_gender := x\<rparr>)) v = user_gender ud v" for v
      using assms(1) by (rule user_gender_search_gender)
    show ?thesis
      unfolding can_users_chat_def p g ..
  qed
  show ?thesis
    using eq char free indep can_users_chat_sym [of ud a b] by simp
qed

theorem can_users_chat_policy_witness:
  "[1::int \<mapsto> premium_boy_seeking_girl, 2 \<mapsto> girl_with_stale_preference] 1
     = Some premium_boy_seeking_girl \<and>
   [1::int \<mapsto> premium_boy_seeking_girl, 2 \<mapsto> girl_with_stale_preference] 2
     = Some girl_with_stale_preference \<and>
   search_gender premium_boy_seeking_girl \<noteq> [] \<and>
   search_gender girl_with_stale_preference \<noteq> [] \<and>
   can_users_chat [1 \<mapsto> premium_boy_seeking_girl, 2 \<mapsto> girl_with_stale_preference] 1 2 \<and>
   can_match premium_boy_seeking_girl girl_with_stale_preference \<and>
   \<not> premium girl_with_stale_preference"
  using can_users_chat_policy [of "[1 \<mapsto> premium_boy_seeking_girl, 2 \<mapsto> girl_with_stale_preference]" 1
      premium_boy_seeking_girl 2 girl_with_stale_preference]
  by (simp add: premium_boy_seeking_girl_def girl_with_stale_preference_def can_match_def
      blocks_def effective_preference_def GENDER_BOY_def GENDER_GIRL_def
      DEFAULT_SEARCH_GENDER_def)

section \<open>The example users: facts\<close>

lemma initial_state_fields:
  "chat_partners (initial_state tbl) = Map.empty"
  "waiting_users (initial_state tbl) = {}"
  "user_data (initial_state tbl) u = map_option load_row (tbl u)"
  "users_table (initial_state tbl) = tbl"
  by (simp_all add: initial_state_def)

lemma sample_rows:
  "sample_users 1 = Some plain_boy" "sample_users 2 = Some plain_girl"
  "sample_users 3 = Some plain_boy" "sample_users 4 = Some no_gender"
  by (simp_all add: sample_users_def)

lemma picky_rows:
  "picky_users 1 = Some plain_boy" "picky_users 2 = Some picky_boy"
  "picky_users 3 = Some plain_girl"
  by (simp_all add: picky_users_def)

lemma loaded_rows:
  "load_row plain_boy =
     \<lparr>gender = Some GENDER_BOY, premium = False, search_gender = DEFAULT_SEARCH_GENDER\<rparr>"
  "load_row plain_girl =
     \<lparr>gender = Some GENDER_GIRL, premium = False, search_gender = DEFAULT_SEARCH_GENDER\<rparr>"
  "load_row picky_boy =
     \<lparr>gender = Some GENDER_BOY, premium = True, search_gender = GENDER_GIRL\<rparr>"
  "load_row no_gender =
     \<lparr>gender = None, premium = False, search_gender = DEFAULT_SEARCH_GENDER\<rparr>"
  by (simp_all add: load_row_def plain_boy_def plain_girl_def picky_boy_def no_gender_def
      int_bool_def str_or_def DEFAULT_SEARCH_GENDER_def GENDER_GIRL_def)

lemma ensure_user_loaded_known:
  assumes "users_table s u = Some r" and "user_data s u = Some d"
  shows "ensure_user_loaded s u = s"
  using assms by (simp add: ensure_user_loaded_def ensure_user_record_def)

lemma ensure_user_loaded_initial:
  assumes "tbl u = Some r"
  shows "ensure_user_loaded (initial_state tbl) u = initial_state tbl"
  using assms by (simp add: ensure_user_loaded_known initial_state_fields)

lemma one_waiting_fields:
  "chat_partners one_waiting = Map.empty"
  "waiting_users one_waiting = {1}"
  "user_data one_waiting = user_data (initial_state sample_users)"
  "users_table one_waiting = sample_users"
  by (simp_all add: one_waiting_def initial_state_fields)

lemma ensure_user_loaded_one_waiting:
  assumes "sample_users u = Some r"
  shows "ensure_user_loaded one_waiting u = one_waiting"
  using assms
  by (simp add: ensure_user_loaded_known [where r = r and d = "load_row r"]
      one_waiting_fields initial_state_fields)

lemma sample_can_chat:
  "can_users_chat (user_data (initial_state sample_users)) 2 1"
  "can_users_chat (user_data (initial_state sample_users)) 1 2"
  "can_users_chat (user_data (initial_state sample_users)) 3 1"
  "\<not> can_users_chat (user_data (initial_state sample_users)) 4 1"
  by (simp_all add: can_users_chat_def user_gender_def user_preference_def
      initial_state_fields sample_rows loaded_rows)

lemma picky_can_chat:
  "\<not> can_users_chat (user_data (initial_state picky_users)) 1 2"
  "can_users_chat (user_data (initial_state picky_users)) 3 1"
  "can_users_chat (user_data (initial_state picky_users)) 3 2"
  by (simp_all add: can_users_chat_def user_gender_def user_preference_def str_or_def
      initial_state_fields picky_rows loaded_rows
      DEFAULT_SEARCH_GENDER_def GENDER_BOY_def GENDER_GIRL_def)

lemma paired_with_waiting_fields:
  "chat_partners paired_with_waiting = [1 \<mapsto> 2, 2 \<mapsto> 1]"
  "waiting_users paired_with_waiting = {3}"
  "user_data paired_with_waiting = user_data (initial_state sample_users)"
  "users_table paired_with_waiting = sample_users"
  by (simp_all add: paired_with_waiting_def initial_state_fields)


section \<open>The scan of the waiting set\<close>

lemma scan_waiting_find:
  "scan_waiting ud u xs = List.find (\<lambda>p. can_users_chat ud u p) (filter (\<lambda>p. p \<noteq> u) xs)"
  by (induction xs) simp_all

lemma scan_waiting_Some:
  "scan_waiting ud u xs = Some p \<Longrightarrow> p \<in> set xs \<and> p \<noteq> u \<and> can_users_chat ud u p"
  by (induction xs) (auto split: if_splits)

lemma scan_waiting_None:
  "(scan_waiting ud u xs = None) = (\<forall>p\<in>set xs. p = u \<or> \<not> can_users_chat ud u p)"
  by (induction xs) auto

lemma find_partner_for_user_cases:
  assumes "set (listing (waiting_users s)) = waiting_users s"
  shows "find_partner_for_user listing s u =
     (case scan_waiting (user_data s) u (listing (waiting_users s)) of
        None \<Rightarrow> (None, s)
      | Some p \<Rightarrow> (Some p, s\<lparr>waiting_users := waiting_users s - {p}\<rparr>))"
proof (cases "waiting_users s = {}")
  case True
  with assms have "listing (waiting_users s) = []" by simp
  with True show ?thesis by (simp add: find_partner_for_user_def)
next
  case False
  then show ?thesis by (simp add: find_partner_for_user_def)
qed

text \<open>
  C3, as the code has it. \<open>find_partner_for_user\<close> does change the set: when it returns
  a candidate it has removed that candidate (\<open>waiting_users.remove(partner_id)\<close>). With
  user 1 waiting and user 2 asking, the set is empty afterwards.
\<close>

theorem find_partner_for_user_removes_hit:
  "fst (find_partner_for_user sorted_list_of_set one_waiting 2) = Some 1 \<and>
   waiting_users one_waiting = {1} \<and>
   waiting_users (snd (find_partner_for_user sorted_list_of_set one_waiting 2)) = {}"
  by (simp add: find_partner_for_user_def one_waiting_fields sample_can_chat)

text \<open>
  C3, amended. When the scan returns nothing, the state is unchanged; when it returns a
  candidate \<open>p\<close>, that candidate was waiting and the state afterwards differs only in
  that \<open>p\<close> has left the waiting set.
\<close>

theorem find_partner_for_user_frame:
  assumes "set (listing (waiting_users s)) = waiting_users s"
    and "find_partner_for_user listing s u = (r, s')"
  shows "(r = None \<longrightarrow> s' = s) \<and>
         (\<forall>p. r = Some p \<longrightarrow>
            p \<in> waiting_users s \<and> s' = s\<lparr>waiting_users := waiting_users s - {p}\<rparr>)"
proof (cases "scan_waiting (user_data s) u (listing (waiting_users s))")
  case None
  with assms(1) have "find_partner_for_user listing s u = (None, s)"
    by (simp only: find_partner_for_user_cases option.case)
  with assms(2) have "r = None" and "s' = s" by simp_all
  then show ?thesis by simp
next
  case (Some q)
  from scan_waiting_Some [OF Some] assms(1) have q: "q \<in> waiting_users s" by simp
  from Some assms(1) have "find_partner_for_user listing s u
      = (Some q, s\<lparr>waiting_users := waiting_users s - {q}\<rparr>)"
    by (simp only: find_partner_for_user_cases option.case)
  with assms(2) have "r = Some q" and "s' = s\<lparr>waiting_users := waiting_users s - {q}\<rparr>"
    by simp_all
  with q show ?thesis by simp
qed

theorem find_partner_for_user_frame_witness:
  "set (sorted_list_of_set (waiting_users one_waiting)) = waiting_users one_waiting \<and>
   fst (find_partner_for_user sorted_list_of_set one_waiting 2) = Some 1 \<and>
   1 \<in> waiting_users one_waiting \<and>
   snd (find_partner_for_user sorted_list_of_set one_waiting 2)
     = one_waiting\<lparr>waiting_users := waiting_users one_waiting - {1}\<rparr>"
proof -
  have listed: "set (sorted_list_of_set (waiting_users one_waiting)) = waiting_users one_waiting"
    by (simp add: one_waiting_fields)
  have hit: "fst (find_partner_for_user sorted_list_of_set one_waiting 2) = Some 1"
    by (simp add: find_partner_for_user_def one_waiting_fields sample_can_chat)
  have pair: "find_partner_for_user sorted_list_of_set one_waiting 2
      = (Some 1, snd (find_partner_for_user sorted_list_of_set one_waiting 2))"
    using hit by (simp add: prod_eq_iff)
  from find_partner_for_user_frame [of sorted_list_of_set one_waiting 2 "Some 1"
      "snd (find_partner_for_user sorted_list_of_set one_waiting 2)"] listed hit pair
  show ?thesis by simp
qed

text \<open>
  C5, as the code has it. The scan follows the enumeration of a Python set, which is
  not the order of insertion. Users 2 and then 1 enter the waiting set (they cannot
  chat with each other: user 2 searches for girls only). CPython keeps the small
  integers 1 and 2 in the slots 1 and 2 of the hash table, so \<open>list(waiting_users)\<close> is
  \<open>[1, 2]\<close>, the increasing listing. The scan for user 3 returns user 1, while the
  first compatible member in insertion order is user 2.
\<close>

theorem find_partner_for_user_not_insertion_order:
  "waiting_users (run sorted_list_of_set (initial_state picky_users)
      [BeginSearch 2 True, BeginSearch 1 True]) = {1, 2} \<and>
   fst (find_partner_for_user sorted_list_of_set
      (run sorted_list_of_set (initial_state picky_users)
         [BeginSearch 2 True, BeginSearch 1 True]) 3) = Some 1 \<and>
   find_compatible
      (user_data (run sorted_list_of_set (initial_state picky_users)
         [BeginSearch 2 True, BeginSearch 1 True])) [2, 1] 3 = Some 2"
proof -
  let ?s0 = "initial_state picky_users"
  let ?s1 = "?s0\<lparr>waiting_users := {2}\<rparr>"
  let ?s2 = "?s0\<lparr>waiting_users := {1, 2}\<rparr>"
  have first: "step sorted_list_of_set ?s0 (BeginSearch 2 True) = ?s1"
    by (simp add: start_search_def begin_search_for_user_def find_partner_for_user_def
        state_of_def truthy_str_def GENDER_BOY_def
        ensure_user_loaded_initial picky_rows loaded_rows initial_state_fields)
  have loaded: "ensure_user_loaded ?s1 1 = ?s1"
    by (rule ensure_user_loaded_known [where r = plain_boy and d = "load_row plain_boy"])
      (simp_all add: initial_state_fields picky_rows)
  have second: "step sorted_list_of_set ?s1 (BeginSearch 1 True) = ?s2"
    by (simp add: start_search_def begin_search_for_user_def find_partner_for_user_def
        state_of_def truthy_str_def GENDER_BOY_def
        loaded picky_rows loaded_rows initial_state_fields picky_can_chat)
  have run: "run sorted_list_of_set ?s0 [BeginSearch 2 True, BeginSearch 1 True] = ?s2"
    by (simp only: run_def foldl.simps first second)
  show ?thesis
    unfolding run
    by (simp add: find_partner_for_user_def find_compatible_def picky_can_chat)
qed

text \<open>
  C5, amended. The scan returns the first member, in the order in which the set is
  enumerated, that is not the requester and can chat with the requester; it returns
  nothing exactly when no such member is waiting (so also on the empty set), and it
  never returns the requester.
\<close>

theorem find_partner_for_user_first_listed:
  assumes "set (listing (waiting_users s)) = waiting_users s"
  shows "fst (find_partner_for_user listing s x)
           = find_compatible (user_data s) (listing (waiting_users s)) x \<and>
         ((fst (find_partner_for_user listing s x) = None)
           = (\<forall>p\<in>waiting_users s. p = x \<or> \<not> can_users_chat (user_data s) x p)) \<and>
         fst (find_partner_for_user listing s x) \<noteq> Some x"
proof -
  let ?scan = "scan_waiting (user_data s) x (listing (waiting_users s))"
  have fst_scan: "fst (find_partner_for_user listing s x) = ?scan"
    using assms by (simp add: find_partner_for_user_cases split: option.splits)
  have "?scan = find_compatible (user_data s) (listing (waiting_users s)) x"
    by (simp add: scan_waiting_find find_compatible_def)
  moreover have "(?scan = None)
      = (\<forall>p\<in>waiting_users s. p = x \<or> \<not> can_users_chat (user_data s) x p)"
    using assms by (simp add: scan_waiting_None)
  moreover have "?scan \<noteq> Some x"
    using scan_waiting_Some [of "user_data s" x "listing (waiting_users s)" x] by blast
  ultimately show ?thesis
    unfolding fst_scan by blast
qed

theorem find_partner_for_user_first_listed_witness:
  "set (sorted_list_of_set (waiting_users one_waiting)) = waiting_users one_waiting \<and>
   fst (find_partner_for_user sorted_list_of_set one_waiting 2) = Some 1 \<and>
   find_compatible (user_data one_waiting) (sorted_list_of_set (waiting_users one_waiting)) 2
     = Some 1 \<and>
   fst (find_partner_for_user sorted_list_of_set one_waiting 1) = None"
proof -
  have listed: "set (sorted_list_of_set (waiting_users one_waiting)) = waiting_users one_waiting"
    by (simp add: one_waiting_fields)
  from find_partner_for_user_first_listed [of sorted_list_of_set one_waiting 2]
    find_partner_for_user_first_listed [of sorted_list_of_set one_waiting 1] listed
  show ?thesis
    by (simp add: find_compatible_def one_waiting_fields sample_can_chat)
qed

section \<open>Actions of a user who is not in the state they assume\<close>

text \<open>
  C10. For a user who is not waiting, the stop-search button changes nothing: the state
  is returned as it was (the registry included, so no chat is ended), and the user is
  told that they are not searching and is shown the main menu.
\<close>

theorem stop_search_not_waiting:
  assumes "u \<notin> waiting_users s"
  shows "stop_search s u = (s, [(u, NotSearching), (u, MainMenu)])"
  using assms by (simp add: stop_search_def)

theorem stop_search_not_waiting_witness:
  "2 \<notin> waiting_users one_waiting \<and>
   stop_search one_waiting 2 = (one_waiting, [(2, NotSearching), (2, MainMenu)])"
proof -
  have "2 \<notin> waiting_users one_waiting"
    by (simp add: one_waiting_fields)
  with stop_search_not_waiting [of 2 one_waiting] show ?thesis by simp
qed

text \<open>
  C9. For a user with no partner, \<open>/stop\<close> leaves the whole state as it is and answers
  that there is no active chat (and shows the main menu); \<open>/next\<close> answers that there is
  no active chat, and changes neither the waiting set nor the registry (it loads the
  user's profile into the cache).
\<close>

theorem no_partner_noop:
  assumes "chat_partners s u = None"
  shows "stop_chat s u = Inr (s, [(u, NoActiveChat), (u, MainMenu)]) \<and>
         next_chat listing s u = Inr (ensure_user_loaded s u, [(u, NoActiveChat)]) \<and>
         waiting_users (ensure_user_loaded s u) = waiting_users s \<and>
         chat_partners (ensure_user_loaded s u) = chat_partners s"
  using assms by (simp add: stop_chat_def next_chat_def)

theorem no_partner_noop_witness:
  "chat_partners one_waiting 1 = None \<and>
   stop_chat one_waiting 1 = Inr (one_waiting, [(1, NoActiveChat), (1, MainMenu)]) \<and>
   next_chat sorted_list_of_set one_waiting 1 = Inr (one_waiting, [(1, NoActiveChat)])"
proof -
  have "chat_partners one_waiting 1 = None"
    by (simp add: one_waiting_fields)
  with no_partner_noop [of one_waiting 1 sorted_list_of_set] show ?thesis
    by (simp add: ensure_user_loaded_one_waiting sample_rows)
qed

section \<open>Starting a search\<close>

lemma begin_search_for_user_waiting:
  assumes "u \<in> waiting_users s"
  shows "begin_search_for_user listing s u = (ensure_user_loaded s u, [(u, AlreadyQueued)])"
  using assms by (simp add: begin_search_for_user_def)

lemma begin_search_for_user_hit:
  assumes "set (listing (waiting_users s)) = waiting_users s"
    and "u \<notin> waiting_users s"
    and "scan_waiting (user_data (ensure_user_loaded s u)) u (listing (waiting_users s)) = Some p"
    and "p \<noteq> 0"
  shows "begin_search_for_user listing s u =
     ((ensure_user_loaded s u)\<lparr>waiting_users := waiting_users s - {p},
         chat_partners := (chat_partners s)(u \<mapsto> p, p \<mapsto> u)\<rparr>,
      [(u, SearchStarted), (u, StopSearchButton), (u, PartnerFound), (p, PartnerFound)])"
proof -
  have "find_partner_for_user listing (ensure_user_loaded s u) u =
      (Some p, (ensure_user_loaded s u)\<lparr>waiting_users := waiting_users s - {p}\<rparr>)"
    using assms(1,3) by (simp add: find_partner_for_user_cases)
  with assms(2,4) show ?thesis
    by (simp add: begin_search_for_user_def connect_users_def)
qed

lemma begin_search_for_user_miss:
  assumes "set (listing (waiting_users s)) = waiting_users s"
    and "u \<notin> waiting_users s"
    and "scan_waiting (user_data (ensure_user_loaded s u)) u (listing (waiting_users s)) = None"
  shows "begin_search_for_user listing s u =
     ((ensure_user_loaded s u)\<lparr>waiting_users := insert u (waiting_users s)\<rparr>,
      [(u, SearchStarted), (u, StopSearchButton), (u, AddedToQueue)])"
proof -
  have "find_partner_for_user listing (ensure_user_loaded s u) u = (None, ensure_user_loaded s u)"
    using assms(1,3) by (simp add: find_partner_for_user_cases)
  with assms(2) show ?thesis
    by (simp add: begin_search_for_user_def)
qed

lemma fst_find_partner_for_user:
  assumes "set (listing (waiting_users s)) = waiting_users s"
  shows "fst (find_partner_for_user listing s u)
    = scan_waiting (user_data s) u (listing (waiting_users s))"
  using assms by (simp add: find_partner_for_user_cases split: option.splits)

text \<open>
  The two outcomes of \<open>begin_search_for_user\<close> for a requester who is not yet
  waiting, when the candidate returned by the scan has a non-zero id: that candidate
  was waiting and compatible, it leaves the waiting set, the registry gains the two
  entries, the requester is not put into the waiting set, and both are told that a
  partner is found. When no waiting member other than the requester is compatible, the
  requester is in the waiting set afterwards and the registry is unchanged.
\<close>

lemma begin_search_for_user_outcome:
  assumes "set (listing (waiting_users s)) = waiting_users s"
  shows "(\<forall>p. u \<notin> waiting_users s \<and>
              fst (find_partner_for_user listing (ensure_user_loaded s u) u) = Some p \<and>
              p \<noteq> 0 \<longrightarrow>
            p \<in> waiting_users s \<and> p \<noteq> u \<and>
            can_users_chat (user_data (ensure_user_loaded s u)) u p \<and>
            begin_search_for_user listing s u =
              ((ensure_user_loaded s u)\<lparr>waiting_users := waiting_users s - {p},
                  chat_partners := (chat_partners s)(u \<mapsto> p, p \<mapsto> u)\<rparr>,
               [(u, SearchStarted), (u, StopSearchButton), (u, PartnerFound),
                (p, PartnerFound)]) \<and>
            u \<notin> waiting_users s - {p}) \<and>
         ((\<forall>p\<in>waiting_users s.
              p = u \<or> \<not> can_users_chat (user_data (ensure_user_loaded s u)) u p) \<longrightarrow>
            waiting_users (fst (begin_search_for_user listing s u)) = insert u (waiting_users s) \<and>
            chat_partners (fst (begin_search_for_user listing s u)) = chat_partners s)"
proof (intro conjI allI impI)
  fix p
  assume h: "u \<notin> waiting_users s \<and>
    fst (find_partner_for_user listing (ensure_user_loaded s u) u) = Some p \<and> p \<noteq> 0"
  then have scan: "scan_waiting (user_data (ensure_user_loaded s u)) u
      (listing (waiting_users s)) = Some p"
    using assms by (simp add: fst_find_partner_for_user)
  from scan_waiting_Some [OF scan] assms
  show "p \<in> waiting_users s" and "p \<noteq> u"
    and "can_users_chat (user_data (ensure_user_loaded s u)) u p"
    by simp_all
  from h scan assms
  show "begin_search_for_user listing s u =
      ((ensure_user_loaded s u)\<lparr>waiting_users := waiting_users s - {p},
          chat_partners := (chat_partners s)(u \<mapsto> p, p \<mapsto> u)\<rparr>,
       [(u, SearchStarted), (u, StopSearchButton), (u, PartnerFound), (p, PartnerFound)])"
    by (simp add: begin_search_for_user_hit)
  from h show "u \<notin> waiting_users s - {p}" by simp
next
  assume none: "\<forall>p\<in>waiting_users s.
      p = u \<or> \<not> can_users_chat (user_data (ensure_user_loaded s u)) u p"
  then have scan: "scan_waiting (user_data (ensure_user_loaded s u)) u
      (listing (waiting_users s)) = None"
    using assms by (simp add: scan_waiting_None)
  show "waiting_users (fst (begin_search_for_user listing s u)) = insert u (waiting_users s)"
  proof (cases "u \<in> waiting_users s")
    case True
    then show ?thesis by (simp add: begin_search_for_user_waiting insert_absorb)
  next
    case False
    with scan assms show ?thesis by (simp add: begin_search_for_user_miss)
  qed
  show "chat_partners (fst (begin_search_for_user listing s u)) = chat_partners s"
  proof (cases "u \<in> waiting_users s")
    case True
    then show ?thesis by (simp add: begin_search_for_user_waiting)
  next
    case False
    with scan assms show ?thesis by (simp add: begin_search_for_user_miss)
  qed
qed

text \<open>
  The handler of the search button asks the channel-subscription gate first. A user
  who does not pass it is sent the subscription prompt (by \<open>is_user_subscribed\<close>)
  and nothing else happens, whatever the profile.
\<close>

lemma start_search_not_subscribed:
  "start_search listing s u False = Inr (ensure_user_loaded s u, [(u, SubscriptionPrompt)])"
  by (simp add: start_search_def)

text \<open>
  C7. For a user whose gender is unset (\<open>None\<close> or empty) the search, once past the
  subscription gate, raises nothing, asks the user to choose a gender and changes neither
  the waiting set nor the registry (it loads the user's profile into the cache).
\<close>

theorem start_search_gender_unset:
  assumes "\<not> truthy_str (user_gender (user_data (ensure_user_loaded s u)) u)"
  shows "start_search listing s u True = Inr (ensure_user_loaded s u, [(u, AskGender)]) \<and>
         waiting_users (ensure_user_loaded s u) = waiting_users s \<and>
         chat_partners (ensure_user_loaded s u) = chat_partners s"
proof -
  obtain d where d: "user_data (ensure_user_loaded s u) u = Some d"
    using ensure_user_loaded_cached [of s u] by blast
  with assms have "\<not> truthy_str (gender d)"
    by (simp add: user_gender_def)
  with d show ?thesis
    by (simp add: start_search_def)
qed

theorem start_search_gender_unset_witness:
  "\<not> truthy_str (user_gender
        (user_data (ensure_user_loaded (initial_state sample_users) 4)) 4) \<and>
   start_search sorted_list_of_set (initial_state sample_users) 4 True
     = Inr (initial_state sample_users, [(4, AskGender)]) \<and>
   waiting_users (initial_state sample_users) = {} \<and>
   chat_partners (initial_state sample_users) = Map.empty"
proof -
  have loaded: "ensure_user_loaded (initial_state sample_users) 4 = initial_state sample_users"
    by (simp add: ensure_user_loaded_initial sample_rows)
  have unset: "\<not> truthy_str (user_gender
        (user_data (ensure_user_loaded (initial_state sample_users) 4)) 4)"
    by (simp add: loaded truthy_str_def user_gender_def sample_rows loaded_rows
        initial_state_fields)
  from start_search_gender_unset [of "initial_state sample_users" 4 sorted_list_of_set] unset
  show ?thesis
    by (simp add: loaded initial_state_fields)
qed

lemma begin_search_for_user_outcome_example:
  "set (sorted_list_of_set (waiting_users one_waiting)) = waiting_users one_waiting \<and>
   2 \<notin> waiting_users one_waiting \<and>
   fst (find_partner_for_user sorted_list_of_set (ensure_user_loaded one_waiting 2) 2) = Some 1 \<and>
   (1::int) \<noteq> 0 \<and>
   waiting_users (fst (begin_search_for_user sorted_list_of_set one_waiting 2)) = {} \<and>
   chat_partners (fst (begin_search_for_user sorted_list_of_set one_waiting 2)) 2 = Some 1 \<and>
   chat_partners (fst (begin_search_for_user sorted_list_of_set one_waiting 2)) 1 = Some 2 \<and>
   waiting_users (fst (begin_search_for_user sorted_list_of_set one_waiting 4)) = {1, 4} \<and>
   chat_partners (fst (begin_search_for_user sorted_list_of_set one_waiting 4)) 4 = None"
proof -
  have listed: "set (sorted_list_of_set (waiting_users one_waiting)) = waiting_users one_waiting"
    by (simp add: one_waiting_fields)
  have loaded: "ensure_user_loaded one_waiting 2 = one_waiting"
    "ensure_user_loaded one_waiting 4 = one_waiting"
    by (simp_all add: ensure_user_loaded_one_waiting sample_rows)
  have hit: "fst (find_partner_for_user sorted_list_of_set one_waiting 2) = Some 1"
    by (simp add: find_partner_for_user_def one_waiting_fields sample_can_chat)
  from begin_search_for_user_outcome [of sorted_list_of_set one_waiting 2]
    begin_search_for_user_outcome [of sorted_list_of_set one_waiting 4] listed hit
  show ?thesis
    by (simp add: loaded one_waiting_fields sample_can_chat insert_commute)
qed

section \<open>Asking for the next partner\<close>

lemma begin_search_for_user_zero:
  assumes "set (listing (waiting_users s)) = waiting_users s"
    and "u \<notin> waiting_users s"
    and "scan_waiting (user_data (ensure_user_loaded s u)) u (listing (waiting_users s)) = Some 0"
  shows "begin_search_for_user listing s u =
     ((ensure_user_loaded s u)\<lparr>waiting_users := insert u (waiting_users s - {0})\<rparr>,
      [(u, SearchStarted), (u, StopSearchButton), (u, AddedToQueue)])"
proof -
  have "find_partner_for_user listing (ensure_user_loaded s u) u =
      (Some 0, (ensure_user_loaded s u)\<lparr>waiting_users := waiting_users s - {0}\<rparr>)"
    using assms(1,3) by (simp add: find_partner_for_user_cases)
  with assms(2) show ?thesis
    by (simp add: begin_search_for_user_def)
qed

text \<open>A search by \<open>u\<close> does not touch a user \<open>g\<close> who is not waiting.\<close>

lemma begin_search_for_user_other:
  assumes listed: "set (listing (waiting_users s)) = waiting_users s"
    and "g \<noteq> u" and "g \<notin> waiting_users s"
  shows "g \<notin> waiting_users (fst (begin_search_for_user listing s u)) \<and>
         chat_partners (fst (begin_search_for_user listing s u)) g = chat_partners s g"
proof (cases "u \<in> waiting_users s")
  case True
  with assms show ?thesis by (simp add: begin_search_for_user_waiting)
next
  case False
  show ?thesis
  proof (cases "scan_waiting (user_data (ensure_user_loaded s u)) u (listing (waiting_users s))")
    case None
    with False assms show ?thesis by (simp add: begin_search_for_user_miss)
  next
    case (Some p)
    from scan_waiting_Some [OF Some] listed have "p \<in> waiting_users s" by simp
    with assms(3) have "g \<noteq> p" by blast
    show ?thesis
    proof (cases "p = 0")
      case True
      with Some False assms show ?thesis by (simp add: begin_search_for_user_zero)
    next
      case nz: False
      have "begin_search_for_user listing s u =
          ((ensure_user_loaded s u)\<lparr>waiting_users := waiting_users s - {p},
              chat_partners := (chat_partners s)(u \<mapsto> p, p \<mapsto> u)\<rparr>,
           [(u, SearchStarted), (u, StopSearchButton), (u, PartnerFound), (p, PartnerFound)])"
        using listed False Some nz by (rule begin_search_for_user_hit)
      with assms(2,3) \<open>g \<noteq> p\<close> show ?thesis by simp
    qed
  qed
qed

text \<open>
  What \<open>next_chat\<close> does for two users \<open>F\<close> and \<open>G\<close> who are paired with each other.
  Both registry entries are deleted and the waiting set is left as it is (state \<open>s2\<close>);
  \<open>G\<close> is told that the partner started a new search and is shown the main menu. If the
  gender of \<open>F\<close> is set, \<open>F\<close> then runs \<open>begin_search_for_user\<close> on \<open>s2\<close>; if it is
  unset, \<open>F\<close> is asked for a gender instead. If \<open>G\<close> was not waiting, \<open>G\<close> ends without
  a partner and outside the waiting set.
\<close>

lemma next_chat_paired:
  assumes "set (listing (waiting_users s)) = waiting_users s"
    and "chat_partners s F = Some G" and "chat_partners s G = Some F" and "F \<noteq> G"
    and "s2 = (ensure_user_loaded s F)\<lparr>chat_partners := (chat_partners s)(F := None, G := None)\<rparr>"
  shows "chat_partners s2 F = None \<and> chat_partners s2 G = None \<and>
         waiting_users s2 = waiting_users s \<and>
         next_chat listing s F =
           Inr (if truthy_str (user_gender (user_data s2) F)
                then (fst (begin_search_for_user listing s2 F),
                      [(F, SearchingNew), (G, PartnerStartedNewSearch), (G, MainMenu)]
                        @ snd (begin_search_for_user listing s2 F))
                else (s2, [(F, SearchingNew), (G, PartnerStartedNewSearch), (G, MainMenu),
                           (F, AskGender)])) \<and>
         (G \<notin> waiting_users s \<longrightarrow>
            G \<notin> waiting_users (state_of (next_chat listing s F)) \<and>
            chat_partners (state_of (next_chat listing s F)) G = None)"
proof -
  have fields: "chat_partners s2 F = None" "chat_partners s2 G = None"
    "waiting_users s2 = waiting_users s"
    using assms(5) by simp_all
  have run: "next_chat listing s F =
      Inr (if truthy_str (user_gender (user_data s2) F)
           then (fst (begin_search_for_user listing s2 F),
                 [(F, SearchingNew), (G, PartnerStartedNewSearch), (G, MainMenu)]
                   @ snd (begin_search_for_user listing s2 F))
           else (s2, [(F, SearchingNew), (G, PartnerStartedNewSearch), (G, MainMenu),
                      (F, AskGender)]))"
    using assms(2,3,4) unfolding assms(5)
    by (simp add: next_chat_def split_beta Let_def)
  have idle: "G \<notin> waiting_users (state_of (next_chat listing s F)) \<and>
      chat_partners (state_of (next_chat listing s F)) G = None"
    if "G \<notin> waiting_users s"
  proof (cases "truthy_str (user_gender (user_data s2) F)")
    case True
    have "set (listing (waiting_users s2)) = waiting_users s2"
      using assms(1) fields by simp
    from begin_search_for_user_other [of listing s2 G F] this that assms(4) fields
    have "G \<notin> waiting_users (fst (begin_search_for_user listing s2 F)) \<and>
        chat_partners (fst (begin_search_for_user listing s2 F)) G = None"
      by simp
    with True show ?thesis by (simp add: run state_of_def)
  next
    case False
    with that fields show ?thesis by (simp add: run state_of_def)
  qed
  show ?thesis
  proof (intro conjI impI)
    show "next_chat listing s F =
        Inr (if truthy_str (user_gender (user_data s2) F)
             then (fst (begin_search_for_user listing s2 F),
                   [(F, SearchingNew), (G, PartnerStartedNewSearch), (G, MainMenu)]
                     @ snd (begin_search_for_user listing s2 F))
             else (s2, [(F, SearchingNew), (G, PartnerStartedNewSearch), (G, MainMenu),
                        (F, AskGender)]))"
      by (rule run)
  qed (use fields idle in simp_all)
qed

lemma next_chat_paired_example:
  "set (sorted_list_of_set (waiting_users paired_with_waiting))
     = waiting_users paired_with_waiting \<and>
   chat_partners paired_with_waiting 2 = Some 1 \<and>
   chat_partners paired_with_waiting 1 = Some 2 \<and>
   (2::int) \<noteq> 1 \<and>
   1 \<notin> waiting_users paired_with_waiting \<and>
   1 \<notin> waiting_users (state_of (next_chat sorted_list_of_set paired_with_waiting 2)) \<and>
   chat_partners (state_of (next_chat sorted_list_of_set paired_with_waiting 2)) 1 = None"
proof -
  have listed: "set (sorted_list_of_set (waiting_users paired_with_waiting))
      = waiting_users paired_with_waiting"
    by (simp add: paired_with_waiting_fields)
  have pair: "chat_partners paired_with_waiting 2 = Some 1"
    "chat_partners paired_with_waiting 1 = Some 2"
    by (simp_all add: paired_with_waiting_fields)
  have idle: "1 \<notin> waiting_users paired_with_waiting"
    by (simp add: paired_with_waiting_fields)
  have ne: "(2::int) \<noteq> 1" by simp
  note inst = next_chat_paired [of sorted_list_of_set paired_with_waiting 2 1
      "(ensure_user_loaded paired_with_waiting 2)\<lparr>chat_partners :=
          (chat_partners paired_with_waiting)(2 := None, 1 := None)\<rparr>",
      OF listed pair ne refl]
  note left = inst [THEN conjunct2, THEN conjunct2, THEN conjunct2, THEN conjunct2,
      THEN mp, OF idle]
  from left listed pair idle show ?thesis by simp
qed

section \<open>States reached from the empty state\<close>

lemmas run_simps =
  run_def start_search_def begin_search_for_user_def find_partner_for_user_def
  connect_users_def state_of_def ensure_user_loaded_def ensure_user_record_def
  initial_state_fields sample_rows loaded_rows truthy_str_def
  can_users_chat_def user_gender_def user_preference_def
  GENDER_BOY_def GENDER_GIRL_def DEFAULT_SEARCH_GENDER_def

text \<open>
  C1, evaluated on the code. The handler of the search button does not look at
  \<open>chat_partners\<close>. User 1 searches and waits; user 2 searches and is paired with
  user 1; user 1 presses the search button again (the chat controls offer the way back to
  the menu): nobody is waiting, so user 1 is put into the waiting set while still
  registered as the partner of user 2.
\<close>

theorem waiting_while_paired:
  "1 \<in> waiting_users (run sorted_list_of_set (initial_state sample_users)
      [BeginSearch 1 True, BeginSearch 2 True, BeginSearch 1 True]) \<and>
   chat_partners (run sorted_list_of_set (initial_state sample_users)
      [BeginSearch 1 True, BeginSearch 2 True, BeginSearch 1 True]) 1 = Some 2"
  by (simp add: run_simps)

text \<open>
  C2, evaluated on the code. After the three actions above user 3 searches, finds the
  waiting user 1 and is connected to it: the entries of 1 and 3 point at each other, and
  the entry of user 2 still points at user 1.
\<close>

theorem registry_not_symmetric:
  "chat_partners (run sorted_list_of_set (initial_state sample_users)
      [BeginSearch 1 True, BeginSearch 2 True, BeginSearch 1 True, BeginSearch 3 True]) 2
     = Some 1 \<and>
   chat_partners (run sorted_list_of_set (initial_state sample_users)
      [BeginSearch 1 True, BeginSearch 2 True, BeginSearch 1 True, BeginSearch 3 True]) 1
     = Some 3"
  by (simp add: run_simps)

text \<open>
  The handlers rely on the symmetry they do not keep: once user 2 has stopped (which
  deletes the entries of 2 and of 1), \<open>/stop\<close> by user 3 deletes its own entry and then
  raises \<open>KeyError\<close> on the missing entry of user 1.
\<close>

lemma stale_entry_raises:
  "stop_chat (run sorted_list_of_set (initial_state sample_users)
      [BeginSearch 1 True, BeginSearch 2 True, BeginSearch 1 True, BeginSearch 3 True,
       StopSession 2]) 3
   = Inl (KeyError 1,
      (run sorted_list_of_set (initial_state sample_users)
        [BeginSearch 1 True, BeginSearch 2 True, BeginSearch 1 True, BeginSearch 3 True,
         StopSession 2])\<lparr>chat_partners := Map.empty\<rparr>,
      [(3, YouDisconnected), (1, PartnerDisconnected)])"
  by (simp add: run_simps stop_chat_def)

text \<open>
  C8, evaluated on the code. Users 1 and 2 are paired; user 2 presses the search button
  again and, as no one is waiting, is put into the waiting set while paired (the
  search button never looks at the registry). When user 1 now asks for the next partner, the two entries are deleted,
  user 2 is told that the partner started a new search, and the search of user 1 finds
  the waiting user 2: the two are connected again, so user 2 does not end idle and both
  registry entries are present afterwards.
\<close>

theorem next_chat_finds_waiting_partner:
  "chat_partners (run sorted_list_of_set (initial_state sample_users)
      [BeginSearch 1 True, BeginSearch 2 True, BeginSearch 2 True]) 1 = Some 2 \<and>
   chat_partners (run sorted_list_of_set (initial_state sample_users)
      [BeginSearch 1 True, BeginSearch 2 True, BeginSearch 2 True]) 2 = Some 1 \<and>
   2 \<in> waiting_users (run sorted_list_of_set (initial_state sample_users)
      [BeginSearch 1 True, BeginSearch 2 True, BeginSearch 2 True]) \<and>
   chat_partners (run sorted_list_of_set (initial_state sample_users)
      [BeginSearch 1 True, BeginSearch 2 True, BeginSearch 2 True, NextSession 1]) 2 = Some 1 \<and>
   chat_partners (run sorted_list_of_set (initial_state sample_users)
      [BeginSearch 1 True, BeginSearch 2 True, BeginSearch 2 True, NextSession 1]) 1 = Some 2 \<and>
   messages_of (next_chat sorted_list_of_set
      (run sorted_list_of_set (initial_state sample_users)
        [BeginSearch 1 True, BeginSearch 2 True, BeginSearch 2 True]) 1)
     = [(1, SearchingNew), (2, PartnerStartedNewSearch), (2, MainMenu),
        (1, SearchStarted), (1, StopSearchButton), (1, PartnerFound), (2, PartnerFound)]"
  by (simp add: run_simps next_chat_def messages_of_def split_beta)

section \<open>A candidate with the user id 0\<close>


end
